theory Spec2Isabelle
  imports Main
begin

section \<open>Strings, timestamps and errors\<close>

text \<open>
  The application is a Flask handler over two SQLite tables. The database is an explicit
  value (\<^verbatim>\<open>store\<close> below) that every operation takes and returns; an exception of the
  Python code is the \<^verbatim>\<open>Inl\<close> of a sum. A Python \<^verbatim>\<open>str\<close> is a HOL \<^verbatim>\<open>string\<close>, one
  \<^verbatim>\<open>char\<close> per code point (code points below 256).
\<close>

datatype error =
    AttributeError
  | IndexError
  | StopIteration
  | FileNotFoundError
  | IntegrityError
  | OperationalError

text \<open>
  \<^verbatim>\<open>str.isspace\<close> on one character, for the code points a \<^verbatim>\<open>char\<close> can hold:
  tab, line feed, vertical tab, form feed, carriage return, the four separators
  0x1C..0x1F, space, NEL (0x85) and the no-break space (0xA0).
\<close>

definition isspace :: "char \<Rightarrow> bool" where
  "isspace c \<longleftrightarrow>
     c \<in> set [CHR 0x09, CHR 0x0A, CHR 0x0B, CHR 0x0C, CHR 0x0D,
               CHR 0x1C, CHR 0x1D, CHR 0x1E, CHR 0x1F, CHR 0x20, CHR 0x85, CHR 0xA0]"

text \<open>\<^verbatim>\<open>str.strip()\<close> without argument: whitespace removed at both ends.\<close>

definition strip :: "string \<Rightarrow> string" where
  "strip s = rev (dropWhile isspace (rev (dropWhile isspace s)))"

text \<open>
  The clock reading that \<^verbatim>\<open>datetime.now()\<close> returns, and
  \<^verbatim>\<open>isoformat(timespec="seconds")\<close> on it: the format
  \<^verbatim>\<open>%04d-%02d-%02dT%02d:%02d:%02d\<close>, the microseconds dropped.
\<close>

record datetime =
  year :: nat
  month :: nat
  day :: nat
  hour :: nat
  minute :: nat
  second :: nat
  microsecond :: nat

definition digit_char :: "nat \<Rightarrow> char" where
  "digit_char d = ''0123456789'' ! d"

fun show_nat :: "nat \<Rightarrow> string" where
  "show_nat n = (if n < 10 then [digit_char n] else show_nat (n div 10) @ [digit_char (n mod 10)])"

declare show_nat.simps [simp del]

definition zero_pad :: "nat \<Rightarrow> nat \<Rightarrow> string" where
  "zero_pad w n = replicate (w - length (show_nat n)) (CHR ''0'') @ show_nat n"

definition isoformat_seconds :: "datetime \<Rightarrow> string" where
  "isoformat_seconds t =
     zero_pad 4 (year t) @ ''-'' @ zero_pad 2 (month t) @ ''-'' @ zero_pad 2 (day t) @ ''T'' @
     zero_pad 2 (hour t) @ '':'' @ zero_pad 2 (minute t) @ '':'' @ zero_pad 2 (second t)"

section \<open>The two tables\<close>

text \<open>
  \<^verbatim>\<open>students(student_id TEXT PRIMARY KEY, first_name TEXT NOT NULL, last_name TEXT NOT
  NULL, waiver_signed TEXT)\<close>: the waiver column alone may hold NULL.
  \<^verbatim>\<open>logins(id INTEGER PRIMARY KEY AUTOINCREMENT, student_id TEXT NOT NULL, login_time
  TEXT, logout_time TEXT)\<close>. A table is the list of its rows in insertion order.
  \<^verbatim>\<open>logins_seq\<close> is the counter that AUTOINCREMENT keeps for \<^verbatim>\<open>logins\<close> (the largest
  id ever handed out). Row ids are unbounded naturals; SQLite's ceiling of \<^verbatim>\<open>2^63 - 1\<close>
  is not modelled.
\<close>

record student =
  student_id :: string
  first_name :: string
  last_name :: string
  waiver_signed :: "string option"

record login =
  login_id :: nat
  login_student_id :: string
  login_time :: "string option"
  logout_time :: "string option"

record store =
  students :: "student list"
  logins :: "login list"
  logins_seq :: nat

text \<open>
  \<^verbatim>\<open>initialize_database\<close> creates each table if it does not exist: on no database
  (\<^verbatim>\<open>None\<close>) the result has both tables, empty; a database that has them is left as
  it is.
\<close>

definition initialize_database :: "store option \<Rightarrow> store" where
  "initialize_database db =
     (case db of
        None \<Rightarrow> \<lparr>students = [], logins = [], logins_seq = 0\<rparr>
      | Some s \<Rightarrow> s)"

section \<open>The SQL statements of the handler\<close>

text \<open>
  \<^verbatim>\<open>SELECT first_name, last_name, waiver_signed FROM students WHERE student_id = ?\<close>
  followed by \<^verbatim>\<open>fetchone\<close>. The parameter is \<^verbatim>\<open>None\<close> when the form has no such
  field; a comparison with NULL is never true, so no row is selected.
\<close>

definition select_student :: "string option \<Rightarrow> student list \<Rightarrow> student option" where
  "select_student p tbl =
     (case p of
        None \<Rightarrow> None
      | Some sid \<Rightarrow> find (\<lambda>r. student_id r = sid) tbl)"

text \<open>
  \<^verbatim>\<open>SELECT id FROM logins WHERE student_id = ? AND logout_time IS NULL ORDER BY id DESC
  LIMIT 1\<close> followed by \<^verbatim>\<open>fetchone\<close>.
\<close>

definition open_sessions :: "string \<Rightarrow> login list \<Rightarrow> login list" where
  "open_sessions sid tbl = filter (\<lambda>r. login_student_id r = sid \<and> logout_time r = None) tbl"

definition select_active_session :: "string option \<Rightarrow> login list \<Rightarrow> nat option" where
  "select_active_session p tbl =
     (case p of
        None \<Rightarrow> None
      | Some sid \<Rightarrow>
          (case rev (sort (map login_id (open_sessions sid tbl))) of
             [] \<Rightarrow> None
           | i # _ \<Rightarrow> Some i))"

text \<open>\<^verbatim>\<open>UPDATE logins SET logout_time = ? WHERE id = ?\<close>: every row with that id.\<close>

definition update_logout :: "string \<Rightarrow> nat \<Rightarrow> login list \<Rightarrow> login list" where
  "update_logout t i tbl = map (\<lambda>r. if login_id r = i then r\<lparr>logout_time := Some t\<rparr> else r) tbl"

text \<open>
  \<^verbatim>\<open>INSERT INTO logins (student_id, login_time) VALUES (?, ?)\<close>. AUTOINCREMENT gives
  the row an id one above both the largest id in the table and the counter, and stores it in
  the counter. A NULL student id violates NOT NULL.
\<close>

definition max_login_id :: "login list \<Rightarrow> nat" where
  "max_login_id tbl = fold max (map login_id tbl) 0"

definition insert_login :: "string option \<Rightarrow> string \<Rightarrow> store \<Rightarrow> error + store" where
  "insert_login p t s =
     (case p of
        None \<Rightarrow> Inl IntegrityError
      | Some sid \<Rightarrow>
          (let n = Suc (max (logins_seq s) (max_login_id (logins s)))
           in Inr (s\<lparr>logins := logins s @
                       [\<lparr>login_id = n, login_student_id = sid,
                         login_time = Some t, logout_time = None\<rparr>],
                     logins_seq := n\<rparr>)))"

section \<open>The check-in handler\<close>

text \<open>
  A response is the dictionary the handler returns, which Flask sends as a JSON object.
  The form is the map from field names to values; \<^verbatim>\<open>request.form.get\<close> is its lookup.
\<close>

type_synonym response = "(string \<times> string) list"

definition waiver_unsigned :: "string \<Rightarrow> bool" where
  "waiver_unsigned w \<longleftrightarrow> strip w = '''' \<or> w = ''0''"

definition checkin :: "datetime \<Rightarrow> (string \<rightharpoonup> string) \<Rightarrow> store \<Rightarrow> (error + response) \<times> store" where
  "checkin now form s =
     (let sid = form ''student_id'' in
      case select_student sid (students s) of
        None \<Rightarrow> (Inr [(''message'', ''Student ID not found'')], s)
      | Some st \<Rightarrow>
          (case waiver_signed st of
             None \<Rightarrow> (Inl AttributeError, s)
           | Some w \<Rightarrow>
               if waiver_unsigned w then
                 (Inr [(''message'', first_name st @ '' '' @ last_name st @
                          '' cannot check in - liability waiver'')], s)
               else
                 (case select_active_session sid (logins s) of
                    Some active \<Rightarrow>
                      (let logout = isoformat_seconds now in
                       (Inr [(''message'', first_name st @ '' '' @ last_name st @
                                '' checked OUT at '' @ logout)],
                        s\<lparr>logins := update_logout logout active (logins s)\<rparr>))
                  | None \<Rightarrow>
                      (let login = isoformat_seconds now in
                       case insert_login sid login s of
                         Inl e \<Rightarrow> (Inl e, s)
                       | Inr s' \<Rightarrow>
                           (Inr [(''message'', first_name st @ '' '' @ last_name st @
                                    '' checked IN at '' @ login)], s')))))"

text \<open>\<^verbatim>\<open>n\<close> consecutive requests with the same form, one clock reading for each.\<close>

fun checkins :: "datetime list \<Rightarrow> (string \<rightharpoonup> string) \<Rightarrow> store \<Rightarrow> store" where
  "checkins [] form s = s"
| "checkins (now # later) form s = checkins later form (snd (checkin now form s))"

section \<open>The helpers \<^verbatim>\<open>record_login\<close> and \<^verbatim>\<open>record_logout\<close>\<close>

text \<open>
  Neither is called by the handler. \<^verbatim>\<open>record_logout\<close> issues
  \<^verbatim>\<open>UPDATE logins SET logout_time = ? WHERE student_id = ? AND logout_time IS NULL ORDER BY id
  DESC LIMIT 1\<close>, which SQLite accepts only when built with the option for ORDER BY and
  LIMIT on UPDATE (the flag \<^verbatim>\<open>update_limit\<close>), and then runs as an update of the rows whose
  rowid the limited selection returns. Both return the timestamp.
\<close>

definition record_login :: "datetime \<Rightarrow> string option \<Rightarrow> store \<Rightarrow> (error + string) \<times> store" where
  "record_login now p s =
     (let login = isoformat_seconds now in
      case insert_login p login s of
        Inl e \<Rightarrow> (Inl e, s)
      | Inr s' \<Rightarrow> (Inr login, s'))"

definition record_logout :: "bool \<Rightarrow> datetime \<Rightarrow> string option \<Rightarrow> store \<Rightarrow> (error + string) \<times> store" where
  "record_logout update_limit now p s =
     (let logout = isoformat_seconds now in
      if \<not> update_limit then (Inl OperationalError, s)
      else
        (case select_active_session p (logins s) of
           None \<Rightarrow> (Inr logout, s)
         | Some i \<Rightarrow> (Inr logout, s\<lparr>logins := update_logout logout i (logins s)\<rparr>)))"

section \<open>The roster import\<close>

text \<open>
  The file is the list of rows that \<^verbatim>\<open>csv.reader\<close> yields, each a list of cells, or
  \<^verbatim>\<open>None\<close> when the path does not exist. \<^verbatim>\<open>row[i]\<close> raises IndexError beyond the
  row's end. An exception leaves the function before \<^verbatim>\<open>commit\<close>, so the rows inserted
  until then are rolled back: the error carries no store.
\<close>

definition getitem :: "'a list \<Rightarrow> nat \<Rightarrow> error + 'a" where
  "getitem xs i = (if i < length xs then Inr (xs ! i) else Inl IndexError)"

text \<open>
  \<^verbatim>\<open>INSERT OR IGNORE INTO students (student_id, first_name, last_name, waiver_signed) VALUES
  (?, ?, ?, ?)\<close>: the row is dropped when its primary key is already in the table.
\<close>

definition insert_or_ignore :: "student \<Rightarrow> student list \<Rightarrow> student list" where
  "insert_or_ignore r tbl = (if student_id r \<in> set (map student_id tbl) then tbl else tbl @ [r])"

fun import_rows :: "string list list \<Rightarrow> student list \<Rightarrow> error + student list" where
  "import_rows [] tbl = Inr tbl"
| "import_rows (row # rest) tbl =
     (case getitem row 0 of
        Inl e \<Rightarrow> Inl e
      | Inr c0 \<Rightarrow>
     (case getitem row 1 of
        Inl e \<Rightarrow> Inl e
      | Inr c1 \<Rightarrow>
     (case getitem row 3 of
        Inl e \<Rightarrow> Inl e
      | Inr c3 \<Rightarrow>
     (case getitem row 10 of
        Inl e \<Rightarrow> Inl e
      | Inr c10 \<Rightarrow>
          import_rows rest
            (insert_or_ignore
               \<lparr>student_id = strip c3, first_name = strip c1, last_name = strip c0,
                 waiver_signed = Some (strip c10)\<rparr> tbl)))))"

definition import_csv :: "string list list option \<Rightarrow> store \<Rightarrow> error + store" where
  "import_csv file s =
     (case file of
        None \<Rightarrow> Inl FileNotFoundError
      | Some [] \<Rightarrow> Inl StopIteration
      | Some (header # rows) \<Rightarrow>
          (case import_rows rows (students s) of
             Inl e \<Rightarrow> Inl e
           | Inr tbl \<Rightarrow> Inr (s\<lparr>students := tbl\<rparr>)))"

section \<open>Store states and invariants\<close>

text \<open>
  The states the program can be in: the fresh database, and whatever a successful import
  or a request makes of a state it can be in (a restart initialises a database that exists,
  which changes nothing). Requests run one at a time.
\<close>

inductive reachable :: "store \<Rightarrow> bool" where
  fresh: "reachable (initialize_database None)"
| imported: "reachable s \<Longrightarrow> import_csv file s = Inr s' \<Longrightarrow> reachable s'"
| request: "reachable s \<Longrightarrow> reachable (snd (checkin now form s))"

text \<open>The two PRIMARY KEY constraints, which the database enforces.\<close>

definition primary_keys_unique :: "store \<Rightarrow> bool" where
  "primary_keys_unique s \<longleftrightarrow>
     distinct (map student_id (students s)) \<and> distinct (map login_id (logins s))"

text \<open>
  The open-session invariant: no student has two login rows with a NULL logout time. It is
  checked row by row, for the student of each row; a student without rows has no open
  session at all.
\<close>

definition one_open_session :: "login list \<Rightarrow> bool" where
  "one_open_session tbl \<longleftrightarrow>
     list_all (\<lambda>r. length (open_sessions (login_student_id r) tbl) \<le> 1) tbl"

text \<open>All login rows of one student, open or closed.\<close>

definition sessions_of :: "string \<Rightarrow> login list \<Rightarrow> login list" where
  "sessions_of sid tbl = filter (\<lambda>r. login_student_id r = sid) tbl"

section \<open>Sample data\<close>

text \<open>The scenario of the specification: Alice Smith, id 12345, waiver flag 1.\<close>

definition sample_time :: datetime where
  "sample_time =
     \<lparr>year = 2026, month = 1, day = 22, hour = 14, minute = 39, second = 36,
       microsecond = 250000\<rparr>"

definition alice :: student where
  "alice = \<lparr>student_id = ''12345'', first_name = ''Alice'', last_name = ''Smith'',
             waiver_signed = Some ''1''\<rparr>"

text \<open>A second student, with the flag 0.\<close>

definition bob :: student where
  "bob = \<lparr>student_id = ''20002'', first_name = ''Bob'', last_name = ''Jones'',
           waiver_signed = Some ''0''\<rparr>"

definition sample_store :: store where
  "sample_store = \<lparr>students = [alice, bob], logins = [], logins_seq = 0\<rparr>"

text \<open>A roster file that imports to the sample store: a header and two rows of eleven cells.\<close>

definition sample_file :: "string list list" where
  "sample_file =
     [[''Last'', ''First'', ''Email'', ''ID'', ''c4'', ''c5'', ''c6'', ''c7'', ''c8'', ''c9'',
       ''Waiver''],
      [''Smith'', '' Alice'', ''a@ju.edu'', ''12345 '', '''', '''', '''', '''', '''', '''', ''1''],
      [''Jones'', ''Bob'', ''b@ju.edu'', ''20002'', '''', '''', '''', '''', '''', '''', '' 0 '']]"

definition alice_form :: "string \<rightharpoonup> string" where
  "alice_form = [''student_id'' \<mapsto> ''12345'']"

text \<open>The sample store after Alice's first request, and after her second, later one.\<close>

definition sample_later :: datetime where
  "sample_later =
     \<lparr>year = 2026, month = 1, day = 22, hour = 16, minute = 5, second = 9,
       microsecond = 0\<rparr>"

definition sample_open :: store where
  "sample_open =
     \<lparr>students = [alice, bob],
       logins = [\<lparr>login_id = 1, login_student_id = ''12345'',
                  login_time = Some ''2026-01-22T14:39:36'', logout_time = None\<rparr>],
       logins_seq = 1\<rparr>"

definition sample_closed :: store where
  "sample_closed =
     \<lparr>students = [alice, bob],
       logins = [\<lparr>login_id = 1, login_student_id = ''12345'',
                  login_time = Some ''2026-01-22T14:39:36'',
                  logout_time = Some ''2026-01-22T16:05:09''\<rparr>],
       logins_seq = 1\<rparr>"

text \<open>
  A logins table in which Alice has two open rows and, with the highest id, a closed one.
\<close>

definition sample_logins :: "login list" where
  "sample_logins =
     [\<lparr>login_id = 1, login_student_id = ''12345'',
        login_time = Some ''2026-01-20T09:00:00'', logout_time = None\<rparr>,
      \<lparr>login_id = 2, login_student_id = ''12345'',
        login_time = Some ''2026-01-21T09:00:00'', logout_time = None\<rparr>,
      \<lparr>login_id = 3, login_student_id = ''12345'',
        login_time = Some ''2026-01-22T09:00:00'',
        logout_time = Some ''2026-01-22T10:00:00''\<rparr>]"

definition sample_two_open :: store where
  "sample_two_open = \<lparr>students = [alice, bob], logins = sample_logins, logins_seq = 3\<rparr>"

section \<open>Facts about the statements\<close>

subsection \<open>Selecting rows\<close>

lemma select_student_None_iff:
  "select_student (Some sid) tbl = None \<longleftrightarrow> sid \<notin> student_id ` set tbl"
  by (auto simp: select_student_def find_None_iff)

lemma select_student_present:
  assumes "distinct (map student_id tbl)" and "st \<in> set tbl"
  shows "select_student (Some (student_id st)) tbl = Some st"
  using assms
proof (induction tbl)
  case Nil
  then show ?case by simp
next
  case (Cons r tbl)
  show ?case
  proof (cases "student_id r = student_id st")
    case True
    with Cons.prems have "r = st" by (auto simp: image_iff)
    then show ?thesis by (simp add: select_student_def)
  next
    case False
    with Cons show ?thesis by (auto simp: select_student_def)
  qed
qed

lemma sorted_last_greatest:
  "sorted xs \<Longrightarrow> x \<in> set xs \<Longrightarrow> x \<le> last xs"
  by (induction xs) auto

lemma select_active_session_None_iff:
  "select_active_session (Some sid) tbl = None \<longleftrightarrow> open_sessions sid tbl = []"
proof -
  have "sort (map login_id (open_sessions sid tbl)) = [] \<longleftrightarrow> open_sessions sid tbl = []"
    using length_sort [of "\<lambda>x. x" "map login_id (open_sessions sid tbl)"] by (metis length_0_conv length_map)
  then show ?thesis
    by (auto simp: select_active_session_def split: list.splits)
qed

lemma select_active_session_Some:
  assumes "select_active_session (Some sid) tbl = Some i"
  shows "\<exists>r \<in> set (open_sessions sid tbl). login_id r = i \<and>
           (\<forall>r' \<in> set (open_sessions sid tbl). login_id r' \<le> i)"
proof -
  let ?ids = "map login_id (open_sessions sid tbl)"
  from assms obtain rest where rv: "rev (sort ?ids) = i # rest"
    by (auto simp: select_active_session_def split: list.splits)
  then have ne: "sort ?ids \<noteq> []" by auto
  from rv have "last (sort ?ids) = i"
    by (metis hd_rev list.sel(1))
  moreover have "last (sort ?ids) \<in> set (sort ?ids)" using ne by (rule last_in_set)
  moreover have "\<forall>x \<in> set ?ids. x \<le> last (sort ?ids)"
    using sorted_last_greatest [of "sort ?ids"] by simp
  ultimately show ?thesis by auto
qed

lemma select_active_session_exists:
  "open_sessions sid tbl \<noteq> [] \<Longrightarrow> \<exists>i. select_active_session (Some sid) tbl = Some i"
  using select_active_session_None_iff [of sid tbl] by (cases "select_active_session (Some sid) tbl") auto

subsection \<open>Effect of the two writes on the selections\<close>

lemma open_sessions_update_logout:
  "open_sessions sid (update_logout t i tbl) = filter (\<lambda>r. login_id r \<noteq> i) (open_sessions sid tbl)"
  by (induction tbl) (auto simp: open_sessions_def update_logout_def)

lemma sessions_of_update_logout:
  "length (sessions_of sid (update_logout t i tbl)) = length (sessions_of sid tbl)"
  by (induction tbl) (auto simp: sessions_of_def update_logout_def)

lemma open_sessions_append:
  "open_sessions sid (tbl @ tbl') = open_sessions sid tbl @ open_sessions sid tbl'"
  by (simp add: open_sessions_def)

lemma update_logout_unique:
  assumes "distinct (map login_id tbl)" and "r \<in> set tbl"
  shows "update_logout t (login_id r) tbl =
           map (\<lambda>x. if x = r then x\<lparr>logout_time := Some t\<rparr> else x) tbl"
proof -
  have "\<forall>x \<in> set tbl. login_id x = login_id r \<longleftrightarrow> x = r"
    using assms by (auto simp: distinct_map inj_on_def)
  then show ?thesis by (auto simp: update_logout_def)
qed

lemma fold_max_lower: "a \<le> fold max xs (a::nat)"
proof (induction xs arbitrary: a)
  case Nil
  then show ?case by simp
next
  case (Cons x xs)
  have "a \<le> max x a" by simp
  also have "\<dots> \<le> fold max xs (max x a)" by (rule Cons.IH)
  finally show ?case by simp
qed

lemma fold_max_upper: "x \<in> set xs \<Longrightarrow> x \<le> fold max xs (a::nat)"
proof (induction xs arbitrary: a)
  case Nil
  then show ?case by simp
next
  case (Cons y ys)
  show ?case
  proof (cases "x = y")
    case True
    have "x \<le> max y a" using True by simp
    also have "\<dots> \<le> fold max ys (max y a)" by (rule fold_max_lower)
    finally show ?thesis by simp
  next
    case False
    with Cons.prems have "x \<in> set ys" by simp
    then show ?thesis using Cons.IH by simp
  qed
qed

lemma max_login_id_greatest: "r \<in> set tbl \<Longrightarrow> login_id r \<le> max_login_id tbl"
  unfolding max_login_id_def by (rule fold_max_upper) simp

subsection \<open>The branches of the handler\<close>

lemma select_student_form:
  "select_student p tbl = Some st \<Longrightarrow> \<exists>sid. p = Some sid \<and> student_id st = sid \<and> st \<in> set tbl"
  by (cases p) (auto simp: select_student_def find_Some_iff)

lemma checkin_not_found:
  "select_student (form ''student_id'') (students s) = None \<Longrightarrow>
   checkin now form s = (Inr [(''message'', ''Student ID not found'')], s)"
  by (simp add: checkin_def)

lemma checkin_blocked:
  assumes "select_student (form ''student_id'') (students s) = Some st"
    and "waiver_signed st = Some w" and "waiver_unsigned w"
  shows "checkin now form s =
           (Inr [(''message'', first_name st @ '' '' @ last_name st @
                    '' cannot check in - liability waiver'')], s)"
  using assms by (simp add: checkin_def Let_def)

lemma checkin_out:
  assumes "select_student (form ''student_id'') (students s) = Some st"
    and "waiver_signed st = Some w" and "\<not> waiver_unsigned w"
    and "select_active_session (form ''student_id'') (logins s) = Some i"
  shows "checkin now form s =
           (Inr [(''message'', first_name st @ '' '' @ last_name st @
                    '' checked OUT at '' @ isoformat_seconds now)],
            s\<lparr>logins := update_logout (isoformat_seconds now) i (logins s)\<rparr>)"
  using assms by (simp add: checkin_def Let_def)

lemma checkin_in:
  assumes "form ''student_id'' = Some sid"
    and "select_student (Some sid) (students s) = Some st"
    and "waiver_signed st = Some w" and "\<not> waiver_unsigned w"
    and "select_active_session (Some sid) (logins s) = None"
  shows "checkin now form s =
           (Inr [(''message'', first_name st @ '' '' @ last_name st @
                    '' checked IN at '' @ isoformat_seconds now)],
            s\<lparr>logins := logins s @
                  [\<lparr>login_id = Suc (max (logins_seq s) (max_login_id (logins s))),
                    login_student_id = sid,
                    login_time = Some (isoformat_seconds now), logout_time = None\<rparr>],
              logins_seq := Suc (max (logins_seq s) (max_login_id (logins s)))\<rparr>)"
  using assms by (simp add: checkin_def insert_login_def Let_def)

text \<open>Whatever the request, the store afterwards is one of three.\<close>

lemma checkin_effect:
  "snd (checkin now form s) = s \<or>
   (\<exists>sid i. form ''student_id'' = Some sid \<and>
      select_active_session (Some sid) (logins s) = Some i \<and>
      snd (checkin now form s) =
        s\<lparr>logins := update_logout (isoformat_seconds now) i (logins s)\<rparr>) \<or>
   (\<exists>sid. form ''student_id'' = Some sid \<and>
      select_active_session (Some sid) (logins s) = None \<and>
      snd (checkin now form s) =
        s\<lparr>logins := logins s @
              [\<lparr>login_id = Suc (max (logins_seq s) (max_login_id (logins s))),
                login_student_id = sid,
                login_time = Some (isoformat_seconds now), logout_time = None\<rparr>],
          logins_seq := Suc (max (logins_seq s) (max_login_id (logins s)))\<rparr>)"
proof (cases "select_student (form ''student_id'') (students s)")
  case None
  then show ?thesis by (simp add: checkin_not_found)
next
  case (Some st)
  then obtain sid where sid: "form ''student_id'' = Some sid"
    using select_student_form by blast
  show ?thesis
  proof (cases "waiver_signed st")
    case None
    with Some show ?thesis by (simp add: checkin_def)
  next
    case w: (Some w)
    show ?thesis
    proof (cases "waiver_unsigned w")
      case True
      with Some w show ?thesis by (simp add: checkin_blocked)
    next
      case False
      show ?thesis
      proof (cases "select_active_session (Some sid) (logins s)")
        case None
        with Some w False sid show ?thesis by (simp add: checkin_in)
      next
        case (Some i)
        with \<open>select_student _ _ = Some st\<close> w False sid show ?thesis
          by (simp add: checkin_out)
      qed
    qed
  qed
qed

lemma checkin_students_same: "students (snd (checkin now form s)) = students s"
  using checkin_effect [of now form s] by auto

subsection \<open>The sample data\<close>

lemma sample_time_iso: "isoformat_seconds sample_time = ''2026-01-22T14:39:36''"
  by (simp add: isoformat_seconds_def sample_time_def zero_pad_def show_nat.simps digit_char_def)

lemma sample_import: "import_csv (Some sample_file) (initialize_database None) = Inr sample_store"
  by (simp add: import_csv_def sample_file_def getitem_def insert_or_ignore_def
      initialize_database_def sample_store_def alice_def bob_def strip_def isspace_def)

lemma sample_store_reachable: "reachable sample_store"
  using reachable.imported [OF reachable.fresh sample_import] .

lemma waiver_unsigned_simps:
  "waiver_unsigned ''''" "waiver_unsigned ''0''" "waiver_unsigned '' ''" "\<not> waiver_unsigned ''1''"
  by (simp_all add: waiver_unsigned_def strip_def isspace_def)

section \<open>Requests that write nothing, and the students table\<close>

text \<open>
  C4. A student in the table whose waiver flag is the empty string or the string 0 gets the
  waiver-block message for any check-in request, and the store is left exactly as it was:
  no login row is created.
\<close>

theorem checkin_waiver_block:
  assumes "distinct (map student_id (students s))"
    and "st \<in> set (students s)"
    and "form ''student_id'' = Some (student_id st)"
    and "waiver_signed st = Some w"
    and "w = '''' \<or> w = ''0''"
  shows "checkin now form s =
           (Inr [(''message'', first_name st @ '' '' @ last_name st @
                    '' cannot check in - liability waiver'')], s)"
proof -
  have "select_student (form ''student_id'') (students s) = Some st"
    using assms(1-3) by (simp add: select_student_present)
  moreover have "waiver_unsigned w"
    using assms(5) waiver_unsigned_simps by auto
  ultimately show ?thesis
    using assms(4) by (simp add: checkin_blocked)
qed

theorem checkin_waiver_block_witness:
  "distinct (map student_id (students sample_store)) \<and>
   bob \<in> set (students sample_store) \<and>
   [''student_id'' \<mapsto> ''20002''] ''student_id'' = Some (student_id bob) \<and>
   waiver_signed bob = Some ''0'' \<and>
   checkin sample_time [''student_id'' \<mapsto> ''20002''] sample_store =
     (Inr [(''message'', ''Bob Jones cannot check in - liability waiver'')], sample_store)"
proof -
  have h1: "distinct (map student_id (students sample_store))"
    by (simp add: sample_store_def alice_def bob_def)
  have h2: "bob \<in> set (students sample_store)"
    by (simp add: sample_store_def)
  have h3: "[''student_id'' \<mapsto> ''20002''] ''student_id'' = Some (student_id bob)"
    by (simp add: bob_def)
  have h4: "waiver_signed bob = Some ''0''"
    by (simp add: bob_def)
  have h5: "''0'' = '''' \<or> ''0'' = ''0''"
    by simp
  show ?thesis
    using h1 h2 h3 h4 h5
      checkin_waiver_block [where s = sample_store and st = bob and w = "''0''"
        and form = "[''student_id'' \<mapsto> ''20002'']" and now = sample_time]
    by (simp add: bob_def)
qed

text \<open>
  C5. A request whose identifier is the key of no row of the students table is answered with
  the one-entry body whose message is "Student ID not found", and the store (both tables)
  is left exactly as it was.
\<close>

theorem checkin_unknown_id:
  assumes "form ''student_id'' = Some sid"
    and "sid \<notin> student_id ` set (students s)"
  shows "checkin now form s = (Inr [(''message'', ''Student ID not found'')], s)"
  using assms by (simp add: checkin_not_found select_student_None_iff)

theorem checkin_unknown_id_witness:
  "[''student_id'' \<mapsto> ''99999''] ''student_id'' = Some ''99999'' \<and>
   ''99999'' \<notin> student_id ` set (students sample_store) \<and>
   checkin sample_time [''student_id'' \<mapsto> ''99999''] sample_store =
     (Inr [(''message'', ''Student ID not found'')], sample_store)"
proof -
  have h1: "[''student_id'' \<mapsto> ''99999''] ''student_id'' = Some ''99999''"
    by simp
  have h2: "''99999'' \<notin> student_id ` set (students sample_store)"
    by (simp add: sample_store_def alice_def bob_def)
  show ?thesis
    using h1 h2
      checkin_unknown_id [where form = "[''student_id'' \<mapsto> ''99999'']" and sid = "''99999''"
        and s = sample_store and now = sample_time]
    by simp
qed

text \<open>
  C9. No check-in request changes the students table: after the request it holds the same
  rows, in the same order, as before. What a request writes is the logins table and its id
  counter.
\<close>

theorem checkin_students_unchanged:
  "students (snd (checkin now form s)) = students s"
  by (rule checkin_students_same)

text \<open>
  C10. A request whose form has no field student_id is answered like one for an unknown
  identifier: the message "Student ID not found", the store unchanged, and no error.
\<close>

theorem checkin_missing_field:
  assumes "form ''student_id'' = None"
  shows "checkin now form s = (Inr [(''message'', ''Student ID not found'')], s)"
  using assms by (simp add: checkin_not_found select_student_def)

theorem checkin_missing_field_witness:
  "[''name'' \<mapsto> ''Alice''] ''student_id'' = None \<and>
   checkin sample_time [''name'' \<mapsto> ''Alice''] sample_store =
     (Inr [(''message'', ''Student ID not found'')], sample_store)"
proof -
  have h: "[''name'' \<mapsto> ''Alice''] ''student_id'' = None"
    by simp
  show ?thesis
    using h
      checkin_missing_field [where form = "[''name'' \<mapsto> ''Alice'']" and s = sample_store
        and now = sample_time]
    by simp
qed

section \<open>The open-session invariant\<close>

lemma one_open_session_iff:
  "one_open_session tbl \<longleftrightarrow> (\<forall>sid. length (open_sessions sid tbl) \<le> 1)"
proof
  assume inv: "one_open_session tbl"
  show "\<forall>sid. length (open_sessions sid tbl) \<le> 1"
  proof
    fix sid
    show "length (open_sessions sid tbl) \<le> 1"
    proof (cases "open_sessions sid tbl")
      case Nil
      then show ?thesis by simp
    next
      case (Cons r rs)
      then have "r \<in> set (open_sessions sid tbl)" by simp
      then have "r \<in> set tbl" and "login_student_id r = sid"
        by (auto simp: open_sessions_def)
      with inv show ?thesis by (auto simp: one_open_session_def list_all_iff)
    qed
  qed
next
  assume "\<forall>sid. length (open_sessions sid tbl) \<le> 1"
  then show "one_open_session tbl"
    by (simp add: one_open_session_def list_all_iff)
qed

lemma one_open_session_update_logout:
  assumes "one_open_session tbl"
  shows "one_open_session (update_logout t i tbl)"
proof -
  have "length (open_sessions sid (update_logout t i tbl)) \<le> 1" for sid
  proof -
    have "length (open_sessions sid (update_logout t i tbl)) \<le> length (open_sessions sid tbl)"
      by (simp add: open_sessions_update_logout)
    also have "\<dots> \<le> 1" using assms by (simp add: one_open_session_iff)
    finally show ?thesis .
  qed
  then show ?thesis by (simp add: one_open_session_iff)
qed

lemma one_open_session_insert:
  assumes "one_open_session tbl" and "open_sessions sid tbl = []"
  shows "one_open_session
           (tbl @ [\<lparr>login_id = n, login_student_id = sid, login_time = lt, logout_time = None\<rparr>])"
proof -
  let ?row = "\<lparr>login_id = n, login_student_id = sid, login_time = lt, logout_time = None\<rparr>"
  have "length (open_sessions sid' (tbl @ [?row])) \<le> 1" for sid'
  proof (cases "sid' = sid")
    case True
    with assms(2) show ?thesis by (simp add: open_sessions_append) (simp add: open_sessions_def)
  next
    case False
    then have "open_sessions sid' (tbl @ [?row]) = open_sessions sid' tbl"
      by (simp add: open_sessions_append) (simp add: open_sessions_def)
    with assms(1) show ?thesis by (simp add: one_open_session_iff)
  qed
  then show ?thesis by (simp add: one_open_session_iff)
qed

lemma checkin_one_open_session:
  assumes "one_open_session (logins s)"
  shows "one_open_session (logins (snd (checkin now form s)))"
  using checkin_effect [of now form s] assms
  by (auto simp: one_open_session_update_logout one_open_session_insert
      select_active_session_None_iff)

lemma import_csv_logins_same:
  "import_csv file s = Inr s' \<Longrightarrow> logins s' = logins s \<and> logins_seq s' = logins_seq s"
  by (auto simp: import_csv_def split: option.splits list.splits sum.splits)

lemma reachable_one_open_session: "reachable s \<Longrightarrow> one_open_session (logins s)"
proof (induction rule: reachable.induct)
  case fresh
  show ?case by (simp add: initialize_database_def one_open_session_def)
next
  case (imported s f s')
  then show ?case by (simp add: import_csv_logins_same)
next
  case (request s now form)
  then show ?case by (simp add: checkin_one_open_session)
qed

lemma checkin_logins_cases:
  "(\<exists>r \<in> set (logins s). logout_time r = None \<and>
       form ''student_id'' = Some (login_student_id r) \<and>
       logins (snd (checkin now form s)) =
         update_logout (isoformat_seconds now) (login_id r) (logins s)) \<or>
   (\<exists>sid. form ''student_id'' = Some sid \<and> open_sessions sid (logins s) = [] \<and>
       logins (snd (checkin now form s)) =
         logins s @
           [\<lparr>login_id = Suc (max (logins_seq s) (max_login_id (logins s))),
             login_student_id = sid,
             login_time = Some (isoformat_seconds now), logout_time = None\<rparr>]) \<or>
   logins (snd (checkin now form s)) = logins s"
proof -
  consider (same) "snd (checkin now form s) = s"
    | (out) sid i where "form ''student_id'' = Some sid"
        "select_active_session (Some sid) (logins s) = Some i"
        "snd (checkin now form s) =
           s\<lparr>logins := update_logout (isoformat_seconds now) i (logins s)\<rparr>"
    | (into) sid where "form ''student_id'' = Some sid"
        "select_active_session (Some sid) (logins s) = None"
        "snd (checkin now form s) =
           s\<lparr>logins := logins s @
                 [\<lparr>login_id = Suc (max (logins_seq s) (max_login_id (logins s))),
                   login_student_id = sid,
                   login_time = Some (isoformat_seconds now), logout_time = None\<rparr>],
             logins_seq := Suc (max (logins_seq s) (max_login_id (logins s)))\<rparr>"
    using checkin_effect [of now form s] by blast
  then show ?thesis
  proof cases
    case same
    then show ?thesis by simp
  next
    case out
    from select_active_session_Some [OF out(2)]
    obtain r where "r \<in> set (open_sessions sid (logins s))" and "login_id r = i"
      by blast
    then have "r \<in> set (logins s)" "logout_time r = None" "login_student_id r = sid"
      by (auto simp: open_sessions_def)
    with out \<open>login_id r = i\<close> show ?thesis by auto
  next
    case into
    then show ?thesis by (auto simp: select_active_session_None_iff)
  qed
qed

subsection \<open>The scenario of the specification, run\<close>

lemma sample_later_iso: "isoformat_seconds sample_later = ''2026-01-22T16:05:09''"
  by (simp add: isoformat_seconds_def sample_later_def zero_pad_def show_nat.simps digit_char_def)

lemma sample_checkin_in:
  "checkin sample_time alice_form sample_store =
     (Inr [(''message'', ''Alice Smith checked IN at 2026-01-22T14:39:36'')], sample_open)"
  by (simp add: checkin_def Let_def alice_form_def sample_store_def sample_open_def alice_def
      bob_def select_student_def waiver_unsigned_simps select_active_session_def
      open_sessions_def insert_login_def max_login_id_def sample_time_iso)

lemma sample_checkin_out:
  "checkin sample_later alice_form sample_open =
     (Inr [(''message'', ''Alice Smith checked OUT at 2026-01-22T16:05:09'')], sample_closed)"
  by (simp add: checkin_def Let_def alice_form_def sample_open_def sample_closed_def alice_def
      bob_def select_student_def waiver_unsigned_simps select_active_session_def
      open_sessions_def update_logout_def sample_later_iso)

text \<open>
  C1. In every state the program reaches, no student has more than one login row with a
  NULL logout time. A check-in request run on a store with that property returns a store
  with it, and what it does to the logins table is one of three things: it sets the logout
  time on the id of a row that was open, or it appends one open row for a student who had
  none, or it leaves the table as it was.
\<close>

theorem checkin_preserves_one_open_session:
  "(reachable s \<longrightarrow> one_open_session (logins s)) \<and>
   (one_open_session (logins s) \<longrightarrow>
      one_open_session (logins (snd (checkin now form s))) \<and>
      ((\<exists>r \<in> set (logins s). logout_time r = None \<and>
           form ''student_id'' = Some (login_student_id r) \<and>
           logins (snd (checkin now form s)) =
             update_logout (isoformat_seconds now) (login_id r) (logins s)) \<or>
       (\<exists>sid. form ''student_id'' = Some sid \<and> open_sessions sid (logins s) = [] \<and>
           logins (snd (checkin now form s)) =
             logins s @
               [\<lparr>login_id = Suc (max (logins_seq s) (max_login_id (logins s))),
                 login_student_id = sid,
                 login_time = Some (isoformat_seconds now), logout_time = None\<rparr>]) \<or>
       logins (snd (checkin now form s)) = logins s))"
  using reachable_one_open_session [of s] checkin_one_open_session [of s now form]
    checkin_logins_cases [of s form now]
  by blast

theorem checkin_preserves_one_open_session_witness:
  "reachable sample_open \<and>
   one_open_session (logins sample_open) \<and>
   one_open_session (logins (snd (checkin sample_later alice_form sample_open))) \<and>
   logins (snd (checkin sample_later alice_form sample_open)) =
     update_logout ''2026-01-22T16:05:09'' 1 (logins sample_open)"
proof -
  have "reachable (snd (checkin sample_time alice_form sample_store))"
    using sample_store_reachable by (rule reachable.request)
  then have h1: "reachable sample_open"
    by (simp add: sample_checkin_in)
  have h2: "one_open_session (logins sample_open)"
    by (simp add: sample_open_def one_open_session_def open_sessions_def)
  have "one_open_session (logins (snd (checkin sample_later alice_form sample_open)))"
    using h2 checkin_preserves_one_open_session [of sample_open sample_later alice_form]
    by blast
  moreover have "logins sample_closed =
     update_logout ''2026-01-22T16:05:09'' 1 (logins sample_open)"
    by (simp add: sample_closed_def sample_open_def update_logout_def)
  then have "logins (snd (checkin sample_later alice_form sample_open)) =
     update_logout ''2026-01-22T16:05:09'' 1 (logins sample_open)"
    by (simp only: sample_checkin_out snd_conv)
  ultimately show ?thesis using h1 h2 by simp
qed

section \<open>Checking in and checking out\<close>

text \<open>
  C3. A student in the table with a signed waiver (a flag that the handler's test does not
  block) and at least one open login row: one request sets the logout time of the open row with the
  highest id among that student's open rows, changes no other row, adds none, and answers
  "<first> <last> checked OUT at <time>", the time being the logout time it stored (the
  clock reading in ISO format, to the second).
\<close>

theorem checkin_closes_latest_open_session:
  assumes "primary_keys_unique s"
    and "st \<in> set (students s)"
    and "form ''student_id'' = Some (student_id st)"
    and "waiver_signed st = Some w"
    and "\<not> waiver_unsigned w"
    and "open_sessions (student_id st) (logins s) \<noteq> []"
  shows "\<exists>r \<in> set (open_sessions (student_id st) (logins s)).
           (\<forall>r' \<in> set (open_sessions (student_id st) (logins s)). login_id r' \<le> login_id r) \<and>
           checkin now form s =
             (Inr [(''message'', first_name st @ '' '' @ last_name st @
                      '' checked OUT at '' @ isoformat_seconds now)],
              s\<lparr>logins := map (\<lambda>x. if x = r then x\<lparr>logout_time := Some (isoformat_seconds now)\<rparr>
                                    else x) (logins s)\<rparr>)"
proof -
  let ?sid = "student_id st"
  have sel: "select_student (form ''student_id'') (students s) = Some st"
    using assms(1-3) by (simp add: primary_keys_unique_def select_student_present)
  from assms(6) obtain i where i: "select_active_session (Some ?sid) (logins s) = Some i"
    using select_active_session_exists by blast
  from select_active_session_Some [OF i]
  obtain r where r: "r \<in> set (open_sessions ?sid (logins s))" "login_id r = i"
    and top: "\<forall>r' \<in> set (open_sessions ?sid (logins s)). login_id r' \<le> i"
    by blast
  from r(1) have "r \<in> set (logins s)" by (simp add: open_sessions_def)
  then have upd: "update_logout (isoformat_seconds now) i (logins s) =
      map (\<lambda>x. if x = r then x\<lparr>logout_time := Some (isoformat_seconds now)\<rparr> else x) (logins s)"
    using assms(1) r(2) update_logout_unique [of "logins s" r "isoformat_seconds now"]
    by (simp add: primary_keys_unique_def)
  have "checkin now form s =
      (Inr [(''message'', first_name st @ '' '' @ last_name st @
               '' checked OUT at '' @ isoformat_seconds now)],
       s\<lparr>logins := update_logout (isoformat_seconds now) i (logins s)\<rparr>)"
    using sel assms(3-5) i by (simp add: checkin_out)
  with upd r top show ?thesis by auto
qed

theorem checkin_closes_latest_open_session_witness:
  "primary_keys_unique sample_two_open \<and>
   alice \<in> set (students sample_two_open) \<and>
   alice_form ''student_id'' = Some (student_id alice) \<and>
   waiver_signed alice = Some ''1'' \<and>
   \<not> waiver_unsigned ''1'' \<and>
   open_sessions (student_id alice) (logins sample_two_open) \<noteq> [] \<and>
   checkin sample_later alice_form sample_two_open =
     (Inr [(''message'', ''Alice Smith checked OUT at 2026-01-22T16:05:09'')],
      sample_two_open\<lparr>logins :=
        [\<lparr>login_id = 1, login_student_id = ''12345'',
           login_time = Some ''2026-01-20T09:00:00'', logout_time = None\<rparr>,
         \<lparr>login_id = 2, login_student_id = ''12345'',
           login_time = Some ''2026-01-21T09:00:00'',
           logout_time = Some ''2026-01-22T16:05:09''\<rparr>,
         \<lparr>login_id = 3, login_student_id = ''12345'',
           login_time = Some ''2026-01-22T09:00:00'',
           logout_time = Some ''2026-01-22T10:00:00''\<rparr>]\<rparr>)"
proof -
  have h1: "primary_keys_unique sample_two_open"
    by (simp add: primary_keys_unique_def sample_two_open_def sample_logins_def alice_def bob_def)
  have h2: "alice \<in> set (students sample_two_open)"
    by (simp add: sample_two_open_def)
  have h3: "alice_form ''student_id'' = Some (student_id alice)"
    by (simp add: alice_form_def alice_def)
  have h4: "waiver_signed alice = Some ''1''"
    by (simp add: alice_def)
  have h5: "\<not> waiver_unsigned ''1''"
    by (simp add: waiver_unsigned_simps)
  have opn: "open_sessions (student_id alice) (logins sample_two_open) =
      [\<lparr>login_id = 1, login_student_id = ''12345'',
         login_time = Some ''2026-01-20T09:00:00'', logout_time = None\<rparr>,
       \<lparr>login_id = 2, login_student_id = ''12345'',
         login_time = Some ''2026-01-21T09:00:00'', logout_time = None\<rparr>]"
    by (simp add: open_sessions_def sample_two_open_def sample_logins_def alice_def)
  then have h6: "open_sessions (student_id alice) (logins sample_two_open) \<noteq> []"
    by simp
  from checkin_closes_latest_open_session [where form = alice_form and now = sample_later, OF h1 h2 h3 h4 h5 h6]
  obtain r where r: "r \<in> set (open_sessions (student_id alice) (logins sample_two_open))"
    and top: "\<forall>r' \<in> set (open_sessions (student_id alice) (logins sample_two_open)).
                login_id r' \<le> login_id r"
    and res: "checkin sample_later alice_form sample_two_open =
      (Inr [(''message'', first_name alice @ '' '' @ last_name alice @
               '' checked OUT at '' @ isoformat_seconds sample_later)],
       sample_two_open\<lparr>logins :=
          map (\<lambda>x. if x = r then x\<lparr>logout_time := Some (isoformat_seconds sample_later)\<rparr>
                    else x) (logins sample_two_open)\<rparr>)"
    by blast
  from r top have "r = \<lparr>login_id = 2, login_student_id = ''12345'',
         login_time = Some ''2026-01-21T09:00:00'', logout_time = None\<rparr>"
    unfolding opn by auto
  with res have "checkin sample_later alice_form sample_two_open =
     (Inr [(''message'', ''Alice Smith checked OUT at 2026-01-22T16:05:09'')],
      sample_two_open\<lparr>logins :=
        [\<lparr>login_id = 1, login_student_id = ''12345'',
           login_time = Some ''2026-01-20T09:00:00'', logout_time = None\<rparr>,
         \<lparr>login_id = 2, login_student_id = ''12345'',
           login_time = Some ''2026-01-21T09:00:00'',
           logout_time = Some ''2026-01-22T16:05:09''\<rparr>,
         \<lparr>login_id = 3, login_student_id = ''12345'',
           login_time = Some ''2026-01-22T09:00:00'',
           logout_time = Some ''2026-01-22T10:00:00''\<rparr>]\<rparr>)"
    by (simp add: sample_later_iso alice_def sample_two_open_def sample_logins_def)
  with h1 h2 h3 h4 h5 h6 show ?thesis by simp
qed

text \<open>
  The check-in branch on any store: a student in the table whose flag the handler's test
  does not block and who has no open login row gets one appended row with a fresh id, and
  the message quotes the login time stored.
\<close>

lemma checkin_appends_open_row:
  assumes "distinct (map student_id (students s))"
    and "st \<in> set (students s)"
    and "form ''student_id'' = Some (student_id st)"
    and "waiver_signed st = Some w"
    and "strip w \<noteq> ''''" and "w \<noteq> ''0''"
    and "open_sessions (student_id st) (logins s) = []"
  shows "\<exists>n. (\<forall>r \<in> set (logins s). login_id r < n) \<and>
           checkin now form s =
             (Inr [(''message'', first_name st @ '' '' @ last_name st @
                      '' checked IN at '' @ isoformat_seconds now)],
              s\<lparr>logins := logins s @
                    [\<lparr>login_id = n, login_student_id = student_id st,
                      login_time = Some (isoformat_seconds now), logout_time = None\<rparr>],
                logins_seq := n\<rparr>)"
proof -
  let ?n = "Suc (max (logins_seq s) (max_login_id (logins s)))"
  have sel: "select_student (Some (student_id st)) (students s) = Some st"
    using assms(1,2) by (simp add: select_student_present)
  have "\<not> waiver_unsigned w"
    using assms(5,6) by (simp add: waiver_unsigned_def)
  moreover have "select_active_session (Some (student_id st)) (logins s) = None"
    using assms(7) by (simp add: select_active_session_None_iff)
  ultimately have "checkin now form s =
      (Inr [(''message'', first_name st @ '' '' @ last_name st @
               '' checked IN at '' @ isoformat_seconds now)],
       s\<lparr>logins := logins s @
             [\<lparr>login_id = ?n, login_student_id = student_id st,
               login_time = Some (isoformat_seconds now), logout_time = None\<rparr>],
         logins_seq := ?n\<rparr>)"
    using assms(3,4) sel by (simp add: checkin_in)
  moreover have "\<forall>r \<in> set (logins s). login_id r < ?n"
    using max_login_id_greatest [of _ "logins s"] by (auto simp: less_Suc_eq_le max.coboundedI2)
  ultimately show ?thesis by blast
qed

section \<open>Closing a session by its id\<close>

text \<open>
  C8. The close operation of the store, the UPDATE by id that the handler issues: in a
  table whose ids are unique it sets the logout time of the row with the given id to the
  given timestamp, keeps that row's other columns, and leaves every other row and the
  number of rows as they were.
\<close>

theorem update_logout_sets_one_row:
  assumes "distinct (map login_id tbl)" and "r \<in> set tbl"
  shows "length (update_logout t (login_id r) tbl) = length tbl \<and>
         (\<forall>k < length tbl.
            update_logout t (login_id r) tbl ! k =
              (if tbl ! k = r then r\<lparr>logout_time := Some t\<rparr> else tbl ! k))"
proof -
  have "update_logout t (login_id r) tbl =
          map (\<lambda>x. if x = r then x\<lparr>logout_time := Some t\<rparr> else x) tbl"
    using assms by (rule update_logout_unique)
  then show ?thesis by simp
qed

theorem update_logout_sets_one_row_witness:
  "distinct (map login_id sample_logins) \<and>
   \<lparr>login_id = 2, login_student_id = ''12345'',
     login_time = Some ''2026-01-21T09:00:00'', logout_time = None\<rparr> \<in> set sample_logins \<and>
   length (update_logout ''2026-01-22T16:05:09'' 2 sample_logins) = 3 \<and>
   update_logout ''2026-01-22T16:05:09'' 2 sample_logins ! 0 = sample_logins ! 0 \<and>
   update_logout ''2026-01-22T16:05:09'' 2 sample_logins ! 1 =
     \<lparr>login_id = 2, login_student_id = ''12345'',
       login_time = Some ''2026-01-21T09:00:00'',
       logout_time = Some ''2026-01-22T16:05:09''\<rparr> \<and>
   update_logout ''2026-01-22T16:05:09'' 2 sample_logins ! 2 = sample_logins ! 2"
proof -
  let ?r = "\<lparr>login_id = 2, login_student_id = ''12345'',
     login_time = Some ''2026-01-21T09:00:00'', logout_time = None\<rparr>"
  let ?t = "''2026-01-22T16:05:09''"
  have h1: "distinct (map login_id sample_logins)"
    by (simp add: sample_logins_def)
  have h2: "?r \<in> set sample_logins"
    by (simp add: sample_logins_def)
  have len: "length sample_logins = 3"
    by (simp add: sample_logins_def)
  from update_logout_sets_one_row [OF h1 h2, of ?t]
  have l: "length (update_logout ?t 2 sample_logins) = 3"
    and nth: "\<And>k. k < 3 \<Longrightarrow> update_logout ?t 2 sample_logins ! k =
              (if sample_logins ! k = ?r then ?r\<lparr>logout_time := Some ?t\<rparr> else sample_logins ! k)"
    by (simp_all add: len)
  have "update_logout ?t 2 sample_logins ! 0 = sample_logins ! 0"
    using nth [of 0] by (simp add: sample_logins_def)
  moreover have "update_logout ?t 2 sample_logins ! 1 = ?r\<lparr>logout_time := Some ?t\<rparr>"
    using nth [of 1] by (simp add: sample_logins_def)
  moreover have "update_logout ?t 2 sample_logins ! 2 = sample_logins ! 2"
    using nth [of 2] by (simp add: sample_logins_def)
  ultimately show ?thesis using h1 h2 l by simp
qed

text \<open>
  The helper \<^verbatim>\<open>record_logout\<close> names the session by its student instead; where the
  handler checks a student out, the helper (on a build that accepts its UPDATE) would
  write the same store. Likewise \<^verbatim>\<open>record_login\<close> where the handler checks in.
\<close>

lemma record_logout_as_checkin:
  assumes "select_student (form ''student_id'') (students s) = Some st"
    and "waiver_signed st = Some w" and "\<not> waiver_unsigned w"
    and "select_active_session (form ''student_id'') (logins s) = Some i"
  shows "record_logout True now (form ''student_id'') s =
           (Inr (isoformat_seconds now), snd (checkin now form s))"
  using assms by (simp add: checkin_out record_logout_def Let_def)

lemma record_login_as_checkin:
  assumes "form ''student_id'' = Some sid"
    and "select_student (Some sid) (students s) = Some st"
    and "waiver_signed st = Some w" and "\<not> waiver_unsigned w"
    and "select_active_session (Some sid) (logins s) = None"
  shows "record_login now (form ''student_id'') s =
           (Inr (isoformat_seconds now), snd (checkin now form s))"
  using assms by (simp add: checkin_in record_login_def insert_login_def Let_def)

section \<open>The roster import, run twice\<close>

lemma import_rows_Cons:
  "import_rows (row # rest) tbl =
     (if length row \<le> 10 then Inl IndexError
      else import_rows rest
             (insert_or_ignore
                \<lparr>student_id = strip (row ! 3), first_name = strip (row ! 1),
                  last_name = strip (row ! 0), waiver_signed = Some (strip (row ! 10))\<rparr> tbl))"
  by (simp add: getitem_def)

lemma insert_or_ignore_ids:
  "student_id ` set (insert_or_ignore r tbl) = insert (student_id r) (student_id ` set tbl)"
  by (auto simp: insert_or_ignore_def)

lemma insert_or_ignore_known:
  "student_id r \<in> student_id ` set tbl \<Longrightarrow> insert_or_ignore r tbl = tbl"
  by (simp add: insert_or_ignore_def)

lemma insert_or_ignore_distinct:
  "distinct (map student_id tbl) \<Longrightarrow> distinct (map student_id (insert_or_ignore r tbl))"
  by (simp add: insert_or_ignore_def)

text \<open>After a successful run every row of the file is long enough and its key is in the table.\<close>

lemma import_rows_keys:
  assumes "import_rows rows tbl = Inr tbl'"
  shows "(\<forall>row \<in> set rows. 10 < length row \<and> strip (row ! 3) \<in> student_id ` set tbl') \<and>
         student_id ` set tbl \<subseteq> student_id ` set tbl'"
  using assms
proof (induction rows arbitrary: tbl)
  case Nil
  then show ?case by simp
next
  case (Cons row rest)
  let ?r = "\<lparr>student_id = strip (row ! 3), first_name = strip (row ! 1),
              last_name = strip (row ! 0), waiver_signed = Some (strip (row ! 10))\<rparr>"
  from Cons.prems have long: "10 < length row"
    and run: "import_rows rest (insert_or_ignore ?r tbl) = Inr tbl'"
    by (auto simp only: import_rows_Cons split: if_splits)
  from Cons.IH [OF run]
  have rest: "\<forall>row \<in> set rest. 10 < length row \<and> strip (row ! 3) \<in> student_id ` set tbl'"
    and mono: "student_id ` set (insert_or_ignore ?r tbl) \<subseteq> student_id ` set tbl'"
    by blast+
  from mono have "strip (row ! 3) \<in> student_id ` set tbl'"
    and "student_id ` set tbl \<subseteq> student_id ` set tbl'"
    unfolding insert_or_ignore_ids by auto
  with long rest show ?case by simp
qed

text \<open>When every key of the file is in the table already, the run inserts nothing.\<close>

lemma import_rows_skip_all:
  assumes "\<forall>row \<in> set rows. 10 < length row \<and> strip (row ! 3) \<in> student_id ` set tbl"
  shows "import_rows rows tbl = Inr tbl"
  using assms
proof (induction rows)
  case Nil
  then show ?case by simp
next
  case (Cons row rest)
  then show ?case
    by (simp only: import_rows_Cons) (simp add: insert_or_ignore_known)
qed

lemma import_rows_twice:
  "import_rows rows tbl = Inr tbl' \<Longrightarrow> import_rows rows tbl' = Inr tbl'"
  using import_rows_keys [of rows tbl tbl'] by (simp add: import_rows_skip_all)

lemma import_rows_distinct:
  "import_rows rows tbl = Inr tbl' \<Longrightarrow> distinct (map student_id tbl) \<Longrightarrow>
   distinct (map student_id tbl')"
proof (induction rows arbitrary: tbl)
  case Nil
  then show ?case by simp
next
  case (Cons row rest)
  let ?r = "\<lparr>student_id = strip (row ! 3), first_name = strip (row ! 1),
              last_name = strip (row ! 0), waiver_signed = Some (strip (row ! 10))\<rparr>"
  from Cons.prems(1) have run: "import_rows rest (insert_or_ignore ?r tbl) = Inr tbl'"
    by (auto simp only: import_rows_Cons split: if_splits)
  from Cons.IH [OF run] Cons.prems(2) show ?case
    by (simp add: insert_or_ignore_distinct)
qed

text \<open>
  C7. When a run of the import on a file succeeds, a second run on the same file succeeds
  too and returns the store of the first: the students table has the same rows in the same
  order, every row of the file being skipped for its key.
\<close>

theorem import_csv_idempotent:
  assumes "import_csv file s = Inr s'"
  shows "import_csv file s' = Inr s'"
proof -
  from assms obtain header rows tbl where f: "file = Some (header # rows)"
    and run: "import_rows rows (students s) = Inr tbl" and s': "s' = s\<lparr>students := tbl\<rparr>"
    by (auto simp: import_csv_def split: option.splits list.splits sum.splits)
  from run have "import_rows rows tbl = Inr tbl" by (rule import_rows_twice)
  with f s' show ?thesis by (simp add: import_csv_def)
qed

theorem import_csv_idempotent_witness:
  "import_csv (Some sample_file) (initialize_database None) = Inr sample_store \<and>
   import_csv (Some sample_file) sample_store = Inr sample_store"
  using sample_import import_csv_idempotent [OF sample_import] by simp

section \<open>The primary keys in reachable states\<close>

lemma update_logout_ids: "map login_id (update_logout t i tbl) = map login_id tbl"
  by (simp add: update_logout_def)

lemma checkin_primary_keys_unique:
  assumes "primary_keys_unique s"
  shows "primary_keys_unique (snd (checkin now form s))"
proof -
  let ?n = "Suc (max (logins_seq s) (max_login_id (logins s)))"
  have fresh: "?n \<notin> login_id ` set (logins s)"
  proof
    assume "?n \<in> login_id ` set (logins s)"
    then obtain r where "r \<in> set (logins s)" and "login_id r = ?n" by auto
    with max_login_id_greatest [of r "logins s"] show False by simp
  qed
  from checkin_effect [of now form s] assms fresh show ?thesis
    by (auto simp: primary_keys_unique_def update_logout_ids)
qed

lemma import_csv_primary_keys_unique:
  assumes "import_csv file s = Inr s'" and "primary_keys_unique s"
  shows "primary_keys_unique s'"
proof -
  from assms(1) obtain rows tbl where
    run: "import_rows rows (students s) = Inr tbl" and s': "s' = s\<lparr>students := tbl\<rparr>"
    by (auto simp: import_csv_def split: option.splits list.splits sum.splits)
  from import_rows_distinct [OF run] assms(2) s' show ?thesis
    by (simp add: primary_keys_unique_def)
qed

lemma reachable_primary_keys_unique: "reachable s \<Longrightarrow> primary_keys_unique s"
proof (induction rule: reachable.induct)
  case fresh
  show ?case by (simp add: initialize_database_def primary_keys_unique_def)
next
  case (imported s f s')
  then show ?case by (simp add: import_csv_primary_keys_unique)
next
  case (request s now form)
  then show ?case by (simp add: checkin_primary_keys_unique)
qed

section \<open>Repeated requests of one student\<close>

lemma sessions_of_append:
  "sessions_of sid (tbl @ tbl') = sessions_of sid tbl @ sessions_of sid tbl'"
  by (simp add: sessions_of_def)

lemma checkins_students_same: "students (checkins ts form s) = students s"
  by (induction ts arbitrary: s) (simp_all add: checkin_students_same)

text \<open>
  One request of a signed student: without an open row it adds one, open; with one open row
  it adds none and closes that one.
\<close>

lemma checkin_step_closed:
  assumes "form ''student_id'' = Some sid"
    and "select_student (Some sid) (students s) = Some st"
    and "waiver_signed st = Some w" and "\<not> waiver_unsigned w"
    and "open_sessions sid (logins s) = []"
  shows "length (sessions_of sid (logins (snd (checkin now form s)))) =
           Suc (length (sessions_of sid (logins s)))"
    and "length (open_sessions sid (logins (snd (checkin now form s)))) = 1"
proof -
  have "select_active_session (Some sid) (logins s) = None"
    using assms(5) by (simp add: select_active_session_None_iff)
  with assms(1-4) have "logins (snd (checkin now form s)) =
      logins s @ [\<lparr>login_id = Suc (max (logins_seq s) (max_login_id (logins s))),
                   login_student_id = sid,
                   login_time = Some (isoformat_seconds now), logout_time = None\<rparr>]"
    by (simp add: checkin_in)
  then show "length (sessions_of sid (logins (snd (checkin now form s)))) =
           Suc (length (sessions_of sid (logins s)))"
    and "length (open_sessions sid (logins (snd (checkin now form s)))) = 1"
    using assms(5) by (simp_all add: sessions_of_def open_sessions_def)
qed

lemma checkin_step_open:
  assumes "form ''student_id'' = Some sid"
    and "select_student (Some sid) (students s) = Some st"
    and "waiver_signed st = Some w" and "\<not> waiver_unsigned w"
    and "length (open_sessions sid (logins s)) = 1"
  shows "length (sessions_of sid (logins (snd (checkin now form s)))) =
           length (sessions_of sid (logins s))"
    and "open_sessions sid (logins (snd (checkin now form s))) = []"
proof -
  from assms(5) obtain r where one: "open_sessions sid (logins s) = [r]"
    by (auto simp: length_Suc_conv)
  then obtain i where i: "select_active_session (Some sid) (logins s) = Some i"
    using select_active_session_exists [of sid "logins s"] by auto
  from select_active_session_Some [OF i] one have "login_id r = i" by simp
  from assms(1-4) i have eq: "logins (snd (checkin now form s)) =
      update_logout (isoformat_seconds now) i (logins s)"
    by (simp add: checkin_out)
  show "length (sessions_of sid (logins (snd (checkin now form s)))) =
           length (sessions_of sid (logins s))"
    by (simp add: eq sessions_of_update_logout)
  show "open_sessions sid (logins (snd (checkin now form s))) = []"
    by (simp add: eq open_sessions_update_logout one \<open>login_id r = i\<close>)
qed

lemma checkins_count:
  assumes "form ''student_id'' = Some sid"
    and "select_student (Some sid) (students s) = Some st"
    and "waiver_signed st = Some w" and "\<not> waiver_unsigned w"
    and "length (open_sessions sid (logins s)) = b" and "b \<le> 1"
  shows "length (sessions_of sid (logins (checkins ts form s))) =
           length (sessions_of sid (logins s)) + (length ts + 1 - b) div 2 \<and>
         length (open_sessions sid (logins (checkins ts form s))) = (length ts + b) mod 2"
  using assms(2,5,6)
proof (induction ts arbitrary: s b)
  case Nil
  then show ?case by auto
next
  case (Cons now ts)
  let ?s1 = "snd (checkin now form s)"
  have st1: "select_student (Some sid) (students ?s1) = Some st"
    using Cons.prems(1) by (simp add: checkin_students_same)
  show ?case
  proof (cases "b = 0")
    case True
    with Cons.prems have closed: "open_sessions sid (logins s) = []" by simp
    note step = checkin_step_closed [where form = form and now = now, OF assms(1) Cons.prems(1) assms(3,4) closed]
    from Cons.IH [OF st1 step(2)] step(1) True show ?thesis
      by simp
  next
    case False
    with Cons.prems have b: "b = 1" and "length (open_sessions sid (logins s)) = 1" by auto
    note step = checkin_step_open [where form = form and now = now, OF assms(1) Cons.prems(1) assms(3,4) this(2)]
    from step(2) have "length (open_sessions sid (logins ?s1)) = 0" by simp
    from Cons.IH [OF st1 this] step(1) b show ?thesis
      by simp
  qed
qed

text \<open>
  C6. A student in the table with a signed waiver (a flag that the handler's test does not
  block) and no login row: after \<open>N\<close> consecutive requests of that student there are \<open>(N + 1) div 2\<close> login
  rows of the student, that is N/2 rounded up, of which \<open>N mod 2\<close> are open: none when N is
  even, one when N is odd. The count depends on the number of requests alone: a replay from
  the same store, at whatever clock readings, ends with the same count.
\<close>

theorem alternating_checkins:
  assumes "distinct (map student_id (students s))"
    and "st \<in> set (students s)"
    and "form ''student_id'' = Some (student_id st)"
    and "waiver_signed st = Some w"
    and "\<not> waiver_unsigned w"
    and "sessions_of (student_id st) (logins s) = []"
  shows "length (sessions_of (student_id st) (logins (checkins ts form s))) =
           (length ts + 1) div 2 \<and>
         length (open_sessions (student_id st) (logins (checkins ts form s))) =
           length ts mod 2 \<and>
         (\<forall>ts'. length ts' = length ts \<longrightarrow>
            length (sessions_of (student_id st) (logins (checkins ts' form s))) =
            length (sessions_of (student_id st) (logins (checkins ts form s))))"
proof -
  let ?sid = "student_id st"
  have sel: "select_student (Some ?sid) (students s) = Some st"
    using assms(1,2) by (simp add: select_student_present)
  have "open_sessions ?sid (logins s) = filter (\<lambda>r. logout_time r = None) (sessions_of ?sid (logins s))"
    by (simp add: open_sessions_def sessions_of_def)
  with assms(6) have none: "length (open_sessions ?sid (logins s)) = 0"
    by simp
  have count: "length (sessions_of ?sid (logins (checkins us form s))) = (length us + 1) div 2 \<and>
      length (open_sessions ?sid (logins (checkins us form s))) = length us mod 2" for us
    using checkins_count [where form = form and ts = us, OF assms(3) sel assms(4,5) none] assms(6)
    by simp
  show ?thesis
    using count [of ts] by (auto simp: count)
qed

theorem alternating_checkins_witness:
  "distinct (map student_id (students sample_store)) \<and>
   alice \<in> set (students sample_store) \<and>
   alice_form ''student_id'' = Some (student_id alice) \<and>
   waiver_signed alice = Some ''1'' \<and>
   \<not> waiver_unsigned ''1'' \<and>
   sessions_of (student_id alice) (logins sample_store) = [] \<and>
   length (sessions_of ''12345''
     (logins (checkins [sample_time, sample_later, sample_later] alice_form sample_store))) = 2 \<and>
   length (open_sessions ''12345''
     (logins (checkins [sample_time, sample_later, sample_later] alice_form sample_store))) = 1 \<and>
   length [sample_time, sample_time, sample_time] =
     length [sample_time, sample_later, sample_later] \<and>
   length (sessions_of ''12345''
     (logins (checkins [sample_time, sample_time, sample_time] alice_form sample_store))) =
   length (sessions_of ''12345''
     (logins (checkins [sample_time, sample_later, sample_later] alice_form sample_store)))"
proof -
  have h1: "distinct (map student_id (students sample_store))"
    by (simp add: sample_store_def alice_def bob_def)
  have h2: "alice \<in> set (students sample_store)"
    by (simp add: sample_store_def)
  have h3: "alice_form ''student_id'' = Some (student_id alice)"
    by (simp add: alice_form_def alice_def)
  have h4: "waiver_signed alice = Some ''1''"
    by (simp add: alice_def)
  have h5: "\<not> waiver_unsigned ''1''"
    by (simp add: waiver_unsigned_simps)
  have h6: "sessions_of (student_id alice) (logins sample_store) = []"
    by (simp add: sessions_of_def sample_store_def)
  have sid: "student_id alice = ''12345''"
    by (simp add: alice_def)
  let ?ts = "[sample_time, sample_later, sample_later]"
  note inst = alternating_checkins [where form = alice_form and ts = ?ts,
      OF h1 h2 h3 h4 h5 h6, unfolded sid]
  from inst have "length (sessions_of ''12345'' (logins (checkins ?ts alice_form sample_store))) =
      (length ?ts + 1) div 2"
    by blast
  then have "length (sessions_of ''12345'' (logins (checkins ?ts alice_form sample_store))) = 2"
    by (simp del: checkins.simps)
  moreover from inst
  have "length (open_sessions ''12345'' (logins (checkins ?ts alice_form sample_store))) =
      length ?ts mod 2"
    by blast
  then have "length (open_sessions ''12345'' (logins (checkins ?ts alice_form sample_store))) = 1"
    by (simp del: checkins.simps)
  moreover have same: "length [sample_time, sample_time, sample_time] = length ?ts"
    by simp
  moreover from inst same
  have "length (sessions_of ''12345''
     (logins (checkins [sample_time, sample_time, sample_time] alice_form sample_store))) =
   length (sessions_of ''12345'' (logins (checkins ?ts alice_form sample_store)))"
    by blast
  ultimately show ?thesis using h1 h2 h3 h4 h5 h6 by (simp del: checkins.simps)
qed

section \<open>Further facts about the handler and the import\<close>

text \<open>The timestamp has second precision: the microseconds do not enter it.\<close>

lemma isoformat_seconds_microsecond:
  "isoformat_seconds (t\<lparr>microsecond := m\<rparr>) = isoformat_seconds t"
  by (simp add: isoformat_seconds_def)

lemma show_nat_digit: "n < 10 \<Longrightarrow> show_nat n = [digit_char n]"
  by (simp add: show_nat.simps)

lemma length_show_nat_step:
  assumes "n div 10 < m \<Longrightarrow> length (show_nat (n div 10)) \<le> k" and "n < m * 10"
  shows "length (show_nat n) \<le> Suc k"
proof -
  from assms(2) have "n div 10 < m"
    by (simp add: less_mult_imp_div_less)
  with assms(1) show ?thesis
    by (subst show_nat.simps) simp
qed

lemma length_show_nat_2: "n < 100 \<Longrightarrow> length (show_nat n) \<le> 2"
  using length_show_nat_step [of n 10 1] by (simp add: show_nat_digit)

lemma length_show_nat_3: "n < 1000 \<Longrightarrow> length (show_nat n) \<le> 3"
  using length_show_nat_step [of n 100 2] by (simp add: length_show_nat_2)

lemma length_show_nat_4: "n < 10000 \<Longrightarrow> length (show_nat n) \<le> 4"
  using length_show_nat_step [of n 1000 3] by (simp add: length_show_nat_3)

lemma length_zero_pad: "length (show_nat n) \<le> w \<Longrightarrow> length (zero_pad w n) = w"
  by (simp add: zero_pad_def)

text \<open>On a date and time of day as Python has them, it is nineteen characters long.\<close>

lemma isoformat_seconds_length:
  assumes "year t < 10000" "month t < 100" "day t < 100"
    and "hour t < 100" "minute t < 100" "second t < 100"
  shows "length (isoformat_seconds t) = 19"
  using assms
  by (simp add: isoformat_seconds_def length_zero_pad length_show_nat_2 length_show_nat_4)

text \<open>A row whose waiver flag is NULL makes the handler fail; nothing is written.\<close>

lemma checkin_null_waiver:
  assumes "select_student (form ''student_id'') (students s) = Some st"
    and "waiver_signed st = None"
  shows "checkin now form s = (Inl AttributeError, s)"
  using assms by (simp add: checkin_def)

text \<open>The import writes no NULL flag, and the flags it writes are stripped.\<close>

lemma dropWhile_same: "xs = [] \<or> \<not> P (hd xs) \<Longrightarrow> dropWhile P xs = xs"
  by (cases xs) auto

lemma strip_strip: "strip (strip x) = strip x"
proof -
  define d where "d = dropWhile isspace x"
  define e where "e = dropWhile isspace (rev d)"
  have d: "d = [] \<or> \<not> isspace (hd d)"
    using hd_dropWhile [of isspace x] by (auto simp: d_def)
  have e: "e = [] \<or> \<not> isspace (hd e)"
    using hd_dropWhile [of isspace "rev d"] by (auto simp: e_def)
  have "rev d = takeWhile isspace (rev d) @ e"
    by (simp add: e_def)
  then have "rev (rev d) = rev (takeWhile isspace (rev d) @ e)"
    by simp
  then have split: "d = rev e @ rev (takeWhile isspace (rev d))"
    by simp
  have r: "rev e = [] \<or> \<not> isspace (hd (rev e))"
  proof (cases "e = []")
    case True
    then show ?thesis by simp
  next
    case False
    then have "hd d = hd (rev e)" and "d \<noteq> []"
      using split by (metis hd_append2 rev_is_Nil_conv, metis append_is_Nil_conv rev_is_Nil_conv)
    with d show ?thesis by simp
  qed
  have "strip x = rev e"
    by (simp add: strip_def d_def e_def)
  moreover have "strip (rev e) = rev e"
    using r e by (simp add: strip_def dropWhile_same)
  ultimately show ?thesis by simp
qed

lemma import_rows_flags:
  assumes "import_rows rows tbl = Inr tbl'"
    and "\<forall>r \<in> set tbl. \<exists>w. waiver_signed r = Some w \<and> strip w = w"
  shows "\<forall>r \<in> set tbl'. \<exists>w. waiver_signed r = Some w \<and> strip w = w"
  using assms
proof (induction rows arbitrary: tbl)
  case Nil
  then show ?case by simp
next
  case (Cons row rest)
  let ?r = "\<lparr>student_id = strip (row ! 3), first_name = strip (row ! 1),
              last_name = strip (row ! 0), waiver_signed = Some (strip (row ! 10))\<rparr>"
  from Cons.prems(1) have run: "import_rows rest (insert_or_ignore ?r tbl) = Inr tbl'"
    by (auto simp only: import_rows_Cons split: if_splits)
  have "\<forall>r \<in> set (insert_or_ignore ?r tbl). \<exists>w. waiver_signed r = Some w \<and> strip w = w"
    using Cons.prems(2) by (auto simp: insert_or_ignore_def strip_strip)
  with Cons.IH [OF run] show ?case by blast
qed

text \<open>On a stripped flag the handler's test is the plain one: empty, or the string 0.\<close>

lemma waiver_unsigned_stripped:
  "strip w = w \<Longrightarrow> waiver_unsigned w \<longleftrightarrow> w = '''' \<or> w = ''0''"
  by (simp add: waiver_unsigned_def)

lemma reachable_flags:
  "reachable s \<Longrightarrow> \<forall>r \<in> set (students s). \<exists>w. waiver_signed r = Some w \<and> strip w = w"
proof (induction rule: reachable.induct)
  case fresh
  show ?case by (simp add: initialize_database_def)
next
  case (imported s f s')
  from imported.hyps(2) obtain rows tbl where
    run: "import_rows rows (students s) = Inr tbl" and s': "s' = s\<lparr>students := tbl\<rparr>"
    by (auto simp: import_csv_def split: option.splits list.splits sum.splits)
  from import_rows_flags [OF run imported.IH] s' show ?case by simp
next
  case (request s now form)
  then show ?case by (simp add: checkin_students_same)
qed

text \<open>An UPDATE by an id that no row has changes nothing.\<close>

lemma update_logout_absent: "i \<notin> login_id ` set tbl \<Longrightarrow> update_logout t i tbl = tbl"
  by (induction tbl) (auto simp: update_logout_def)

section \<open>Checking in on a roster the import wrote\<close>

text \<open>
  C2. In a state the program reaches, a student in the table whose waiver flag is neither
  the empty string nor the string 0 and who has no open login row: one request appends
  exactly one row to the logins table, with a fresh id, that student's id, the clock reading
  in ISO format to the second as login time and a NULL logout time, and answers
  "<first> <last> checked IN at <time>" with that same login time. (The flags of a reachable
  state are the stripped ones the import wrote, on which the handler's test is this one.)
\<close>

theorem checkin_opens_session:
  assumes "reachable s"
    and "st \<in> set (students s)"
    and "form ''student_id'' = Some (student_id st)"
    and "waiver_signed st = Some w"
    and "w \<noteq> ''''" and "w \<noteq> ''0''"
    and "open_sessions (student_id st) (logins s) = []"
  shows "\<exists>n. (\<forall>r \<in> set (logins s). login_id r < n) \<and>
           checkin now form s =
             (Inr [(''message'', first_name st @ '' '' @ last_name st @
                      '' checked IN at '' @ isoformat_seconds now)],
              s\<lparr>logins := logins s @
                    [\<lparr>login_id = n, login_student_id = student_id st,
                      login_time = Some (isoformat_seconds now), logout_time = None\<rparr>],
                logins_seq := n\<rparr>)"
proof -
  have keys: "distinct (map student_id (students s))"
    using reachable_primary_keys_unique [OF assms(1)] by (simp add: primary_keys_unique_def)
  from reachable_flags [OF assms(1)] assms(2,4) have "strip w = w"
    by auto
  with assms(5) have "strip w \<noteq> ''''"
    by simp
  from keys assms(2-4) this assms(6,7) show ?thesis
    by (rule checkin_appends_open_row)
qed

theorem checkin_opens_session_witness:
  "reachable sample_store \<and>
   alice \<in> set (students sample_store) \<and>
   alice_form ''student_id'' = Some (student_id alice) \<and>
   waiver_signed alice = Some ''1'' \<and>
   ''1'' \<noteq> '''' \<and> ''1'' \<noteq> ''0'' \<and>
   open_sessions (student_id alice) (logins sample_store) = [] \<and>
   checkin sample_time alice_form sample_store =
     (Inr [(''message'', ''Alice Smith checked IN at 2026-01-22T14:39:36'')],
      sample_store\<lparr>logins :=
          [\<lparr>login_id = 1, login_student_id = ''12345'',
             login_time = Some ''2026-01-22T14:39:36'', logout_time = None\<rparr>],
        logins_seq := 1\<rparr>)"
proof -
  have h1: "reachable sample_store"
    by (rule sample_store_reachable)
  have h2: "alice \<in> set (students sample_store)"
    by (simp add: sample_store_def)
  have h3: "alice_form ''student_id'' = Some (student_id alice)"
    by (simp add: alice_form_def alice_def)
  have h4: "waiver_signed alice = Some ''1''"
    by (simp add: alice_def)
  have h5: "''1'' \<noteq> ''''"
    by simp
  have h6: "''1'' \<noteq> ''0''"
    by simp
  have h7: "open_sessions (student_id alice) (logins sample_store) = []"
    by (simp add: sample_store_def open_sessions_def)
  from checkin_opens_session [where form = alice_form and now = sample_time,
      OF h1 h2 h3 h4 h5 h6 h7]
  obtain n where res: "checkin sample_time alice_form sample_store =
      (Inr [(''message'', first_name alice @ '' '' @ last_name alice @
               '' checked IN at '' @ isoformat_seconds sample_time)],
       sample_store\<lparr>logins := logins sample_store @
             [\<lparr>login_id = n, login_student_id = student_id alice,
               login_time = Some (isoformat_seconds sample_time), logout_time = None\<rparr>],
         logins_seq := n\<rparr>)"
    by blast
  moreover have "logins_seq (snd (checkin sample_time alice_form sample_store)) = 1"
    by (simp add: sample_checkin_in sample_open_def)
  ultimately have "n = 1" by simp
  with res have "checkin sample_time alice_form sample_store =
     (Inr [(''message'', ''Alice Smith checked IN at 2026-01-22T14:39:36'')],
      sample_store\<lparr>logins :=
          [\<lparr>login_id = 1, login_student_id = ''12345'',
             login_time = Some ''2026-01-22T14:39:36'', logout_time = None\<rparr>],
        logins_seq := 1\<rparr>)"
    by (simp add: sample_time_iso alice_def sample_store_def)
  with h1 h2 h3 h4 h5 h6 h7 show ?thesis by simp
qed

end
